theory Spec2Isabelle
  imports Main
begin

section \<open>Artifact store of \<open>langchain/docstore/artifacts.py\<close>\<close>

text \<open>
  A shallow embedding of the metadata store (\<open>InMemoryStore\<close>), the file system artifact
  layer (\<open>FileSystemArtifactLayer\<close>) and the caching interceptor (\<open>CachingInterceptor\<close>).
  Python objects that are mutated in place become records that the functions return
  updated; every exception the code can raise is a value of \<open>py_error\<close>.
\<close>

subsection \<open>Errors\<close>

text \<open>
  The exceptions raised inside the module: \<open>open(path, "w")\<close> on a path that cannot be
  written (\<open>OSError\<close>), \<open>open(path, "r")\<close> on a missing file (\<open>FileNotFoundError\<close>), a
  dictionary lookup with a missing key (\<open>KeyError\<close>), \<open>set.intersection(None)\<close>
  (\<open>TypeError\<close>), the stub \<open>remove_by_uuids\<close> (\<open>NotImplementedError\<close>) and the lookup of
  a name that a module does not have (\<open>AttributeError\<close>). \<open>ExternalError\<close> stands for
  whatever else a collaborator (a transformer, the deserializer, the encoder of the
  snapshot) raises; the module never catches anything.
\<close>

datatype py_error =
    OSError
  | FileNotFoundError
  | KeyError
  | TypeError
  | NotImplementedError
  | AttributeError
  | ExternalError string

subsection \<open>Artifacts and the selector\<close>

text \<open>
  \<open>class Artifact(TypedDict)\<close>. The field \<open>uuid\<close> is annotated \<open>UUID\<close> but holds the
  document's hash (\<open>document.hash_\<close>), a string that is also used as a file name.
\<close>

record 'm artifact =
  custom_id :: string
  uuid :: string
  parent_uuids :: "string list"
  metadata :: 'm

text \<open>
  Modelled from the spec: the class \<open>Selector\<close> is imported from
  \<open>langchain.docstore.base\<close>, which is not among the sources. The spec gives it the three
  optional fields \<open>ids\<close>, \<open>hashes\<close> and \<open>parent_hashes\<close>, each a set of strings; an
  absent field is \<open>None\<close>.
\<close>

record selector =
  ids :: "string set option"
  hashes :: "string set option"
  parent_hashes :: "string set option"

subsection \<open>\<open>InMemoryStore\<close>\<close>

text \<open>
  \<open>self.data["artifacts"]\<close> and \<open>self.artifacts\<close> are the same list object, so one field
  stands for both. The two dictionaries are partial maps.
\<close>

record 'm InMemoryStore =
  artifacts :: "'m artifact list"
  artifact_uuid :: "string \<rightharpoonup> 'm artifact"
  artifact_ids :: "string \<rightharpoonup> 'm artifact"

text \<open>The dictionary comprehension \<open>{key(a): a for a in xs}\<close>: a later entry replaces an
  earlier one with the same key.\<close>

definition index_by :: "('a \<Rightarrow> 'k) \<Rightarrow> 'a list \<Rightarrow> ('k \<rightharpoonup> 'a)" where
  "index_by key xs = fold (\<lambda>a m. m(key a \<mapsto> a)) xs Map.empty"

text \<open>\<open>InMemoryStore.__init__\<close>\<close>

definition InMemoryStore_init :: "'m artifact list \<Rightarrow> 'm InMemoryStore" where
  "InMemoryStore_init data =
     \<lparr>artifacts = data,
      artifact_uuid = index_by uuid data,
      artifact_ids = index_by custom_id data\<rparr>"

text \<open>\<open>InMemoryStore.exists_by_id\<close>: \<open>[bool(i in self.artifact_ids) for i in ids]\<close>\<close>

definition exists_by_id :: "'m InMemoryStore \<Rightarrow> string list \<Rightarrow> bool list" where
  "exists_by_id s xs = map (\<lambda>i. artifact_ids s i \<noteq> None) xs"

text \<open>\<open>InMemoryStore.exists_by_uuid\<close>:
  \<open>[bool(uuid_ in self.artifact_ids) for uuid_ in uuids]\<close>. The dictionary consulted is
  \<open>artifact_ids\<close>, as in the source.\<close>

definition exists_by_uuid :: "'m InMemoryStore \<Rightarrow> string list \<Rightarrow> bool list" where
  "exists_by_uuid s us = map (\<lambda>u. artifact_ids s u \<noteq> None) us"

text \<open>\<open>InMemoryStore.get_by_uuids\<close>: \<open>[self.artifact_uuid[uuid] for uuid in uuids]\<close>; the
  first missing key raises \<open>KeyError\<close>.\<close>

fun get_by_uuids :: "'m InMemoryStore \<Rightarrow> string list \<Rightarrow> py_error + 'm artifact list" where
  "get_by_uuids s [] = Inr []"
| "get_by_uuids s (u # us) =
     (case artifact_uuid s u of
        None \<Rightarrow> Inl KeyError
      | Some a \<Rightarrow>
          (case get_by_uuids s us of
             Inl e \<Rightarrow> Inl e
           | Inr r \<Rightarrow> Inr (a # r)))"

text \<open>
  \<open>InMemoryStore.select\<close> is a generator over \<open>self.data["artifacts"]\<close>.
  \<open>select_step\<close> is the body of its \<open>for\<close> loop for one artifact: \<open>Inr True\<close> when the
  artifact's \<open>uuid\<close> is yielded, \<open>Inr False\<close> when the artifact is passed over, \<open>Inl\<close>
  when the body raises. Python's truth value of a field is spelled out: \<open>None\<close> and the
  empty set are false. The first two tests both look for \<open>artifact["uuid"]\<close>. The third
  test has no guard on \<open>selector.parent_hashes\<close>: when the artifact has parents,
  \<open>set(...).intersection(None)\<close> raises \<open>TypeError\<close>.
\<close>

definition truthy :: "string set option \<Rightarrow> bool" where
  "truthy c = (case c of None \<Rightarrow> False | Some S \<Rightarrow> S \<noteq> {})"

definition member_of :: "string \<Rightarrow> string set option \<Rightarrow> bool" where
  "member_of x c = (case c of None \<Rightarrow> False | Some S \<Rightarrow> x \<in> S)"

definition select_step :: "selector \<Rightarrow> 'm artifact \<Rightarrow> py_error + bool" where
  "select_step sel a =
     (if truthy (ids sel) \<and> member_of (uuid a) (ids sel) then Inr True
      else if truthy (hashes sel) \<and> member_of (uuid a) (hashes sel) then Inr True
      else if parent_uuids a \<noteq> [] then
        (case parent_hashes sel of
           None \<Rightarrow> Inl TypeError
         | Some P \<Rightarrow> Inr (set (parent_uuids a) \<inter> P \<noteq> {}))
      else Inr False)"

text \<open>The generator run to exhaustion, as in \<open>list(self.select(selector))\<close>: an exception
  raised on the way is the result.\<close>

fun select_loop :: "selector \<Rightarrow> 'm artifact list \<Rightarrow> py_error + string list" where
  "select_loop sel [] = Inr []"
| "select_loop sel (a # rest) =
     (case select_step sel a of
        Inl e \<Rightarrow> Inl e
      | Inr yielded \<Rightarrow>
          (case select_loop sel rest of
             Inl e \<Rightarrow> Inl e
           | Inr r \<Rightarrow> Inr (if yielded then uuid a # r else r)))"

definition select :: "'m InMemoryStore \<Rightarrow> selector \<Rightarrow> py_error + string list" where
  "select s sel = select_loop sel (artifacts s)"

text \<open>\<open>InMemoryStore.add\<close>: append to the list, then overwrite both dictionary entries.\<close>

definition store_add :: "'m InMemoryStore \<Rightarrow> 'm artifact \<Rightarrow> 'm InMemoryStore" where
  "store_add s a =
     s\<lparr>artifacts := artifacts s @ [a],
       artifact_uuid := (artifact_uuid s)(uuid a \<mapsto> a),
       artifact_ids := (artifact_ids s)(custom_id a \<mapsto> a)\<rparr>"

text \<open>\<open>InMemoryStore.remove_by_uuids\<close>: \<open>raise NotImplementedError()\<close>.\<close>

definition remove_by_uuids :: "'m InMemoryStore \<Rightarrow> string list \<Rightarrow> py_error + 'm InMemoryStore" where
  "remove_by_uuids s us = Inl NotImplementedError"

text \<open>\<open>InMemoryStore.remove\<close>: \<open>uuids = list(self.select(selector))\<close>, then
  \<open>self.remove_by_uuids(uuids)\<close>.\<close>

definition remove :: "'m InMemoryStore \<Rightarrow> selector \<Rightarrow> py_error + 'm InMemoryStore" where
  "remove s sel =
     (case select s sel of
        Inl e \<Rightarrow> Inl e
      | Inr us \<Rightarrow> remove_by_uuids s us)"

text \<open>A store as the program can hold it: built by the constructor, then grown by \<open>add\<close>.\<close>

definition store_after :: "'m artifact list \<Rightarrow> 'm artifact list \<Rightarrow> 'm InMemoryStore" where
  "store_after data added = foldl store_add (InMemoryStore_init data) added"

subsection \<open>Documents, the file system and the collaborators\<close>

text \<open>
  \<open>Document\<close> comes from \<open>langchain.schema\<close>; the module reads its attributes \<open>id\<close>,
  \<open>hash_\<close>, \<open>parent_hashes\<close> and \<open>metadata\<close>. They are the fields \<open>doc_id\<close>, \<open>doc_hash\<close>,
  \<open>doc_parent_hashes\<close> and \<open>doc_metadata\<close> here: a name cannot end in an underscore, and
  the plain names are taken.
\<close>

record 'm document =
  page_content :: string
  doc_id :: string
  doc_hash :: string
  doc_parent_hashes :: "string list"
  doc_metadata :: 'm

text \<open>
  The directory \<open>root\<close> and how it answers. The code never uses a name as it is: it joins
  it to \<open>root\<close> (\<open>self.root / f"{hash}"\<close>) and opens the result, so two names can denote one
  file (\<open>hD\<close> and \<open>./hD\<close>, say). \<open>resolve\<close> maps a name to the file it denotes, and \<open>files\<close>
  maps a file to its text. Writing can fail in two ways: \<open>open(path, "w")\<close> raises for the
  files in \<open>unwritable\<close> and changes nothing; for a file in the domain of \<open>torn\<close> the file is
  opened, which empties it, and \<open>f.write\<close> raises after that many characters.
\<close>

record file_system =
  files :: "string \<rightharpoonup> string"
  resolve :: "string \<Rightarrow> string"
  unwritable :: "string set"
  torn :: "string \<rightharpoonup> nat"

text \<open>
  \<open>with open(path, "w") as f:\<close> followed by a body that writes to \<open>f\<close>. The body either
  produces the whole text (\<open>Inr\<close>) or raises after producing a part of it (\<open>Inl\<close>). The
  result is the directory as the statement leaves it and the exception, if any. Once
  \<open>open\<close> has succeeded the old text of the file is gone, whatever happens next.
\<close>

definition write_text :: "file_system \<Rightarrow> string \<Rightarrow> (py_error \<times> string) + string
    \<Rightarrow> file_system \<times> py_error option" where
  "write_text f path body =
     (if resolve f path \<in> unwritable f then (f, Some OSError)
      else
        (case body of
           Inl (e, part) \<Rightarrow> (f\<lparr>files := (files f)(resolve f path \<mapsto> part)\<rparr>, Some e)
         | Inr text \<Rightarrow>
             (case torn f (resolve f path) of
                None \<Rightarrow> (f\<lparr>files := (files f)(resolve f path \<mapsto> text)\<rparr>, None)
              | Some n \<Rightarrow>
                  (f\<lparr>files := (files f)(resolve f path \<mapsto> take n text)\<rparr>, Some OSError))))"

text \<open>The names on which a write of a whole text goes through.\<close>

definition writes_ok :: "file_system \<Rightarrow> string \<Rightarrow> bool" where
  "writes_ok f path \<longleftrightarrow> resolve f path \<notin> unwritable f \<and> torn f (resolve f path) = None"

text \<open>\<open>with open(path, "r") as f: f.read()\<close>\<close>

definition read_text :: "file_system \<Rightarrow> string \<Rightarrow> py_error + string" where
  "read_text f path =
     (case files f (resolve f path) of
        None \<Rightarrow> Inl FileNotFoundError
      | Some text \<Rightarrow> Inr text)"

text \<open>
  The functions the module imports and calls but does not define. \<open>serialize_document\<close>
  and \<open>deserialize_document\<close> come from \<open>langchain.docstore.serialization\<close>; serializing
  is taken to be total, deserializing may raise. \<open>json_dump\<close> is \<open>json.dump(self.data, f)\<close>
  as a body of a write. The name \<open>json\<close> is imported twice: \<open>import json\<close> and, further
  down, \<open>from langchain.output_parsers import json\<close>, which is the one in force when
  \<open>save\<close> runs. That module is not among the sources, so what its \<open>dump\<close> does is a
  parameter: it may produce the text, or raise, with nothing written when the module has
  no \<open>dump\<close> at all (\<open>AttributeError\<close>) or with a part written when a value cannot be
  encoded.
\<close>

record 'm serialization =
  serialize_document :: "'m document \<Rightarrow> string"
  deserialize_document :: "string \<Rightarrow> py_error + 'm document"
  json_dump :: "'m artifact list \<Rightarrow> (py_error \<times> string) + string"

subsection \<open>\<open>FileSystemArtifactLayer\<close>\<close>

text \<open>The layer owns the in-memory metadata store and works on the files below its
  \<open>root\<close>.\<close>

record 'm FileSystemArtifactLayer =
  fs :: file_system
  metadata_store :: "'m InMemoryStore"

definition metadata_path :: string where
  "metadata_path = ''metadata.json''"

text \<open>The dictionary literal that \<open>FileSystemArtifactLayer.add\<close> passes to
  \<open>self.metadata_store.add\<close>.\<close>

definition to_artifact :: "'m document \<Rightarrow> 'm artifact" where
  "to_artifact d =
     \<lparr>custom_id = doc_id d,
      uuid = doc_hash d,
      parent_uuids = doc_parent_hashes d,
      metadata = doc_metadata d\<rparr>"

text \<open>\<open>InMemoryStore.save\<close>: \<open>with open(path, "w") as f: json.dump(self.data, f)\<close>\<close>

definition save :: "'m serialization \<Rightarrow> file_system \<Rightarrow> 'm InMemoryStore \<Rightarrow> string
    \<Rightarrow> file_system \<times> py_error option" where
  "save cod f s path = write_text f path (json_dump cod (artifacts s))"

text \<open>
  The \<open>for\<close> loop of \<open>FileSystemArtifactLayer.add\<close>: for each document the payload file
  named by its hash is written first, then the record is added to the metadata store.
  The objects are mutated in place, so when a write raises, the layer keeps what the
  earlier iterations and the failed write did; the result is the layer together with the
  exception, if any.
\<close>

fun add_loop :: "'m serialization \<Rightarrow> 'm FileSystemArtifactLayer \<Rightarrow> 'm document list
    \<Rightarrow> 'm FileSystemArtifactLayer \<times> py_error option" where
  "add_loop cod L [] = (L, None)"
| "add_loop cod L (d # ds) =
     (case write_text (fs L) (doc_hash d) (Inr (serialize_document cod d)) of
        (f, Some e) \<Rightarrow> (L\<lparr>fs := f\<rparr>, Some e)
      | (f, None) \<Rightarrow>
          add_loop cod
            (L\<lparr>fs := f, metadata_store := store_add (metadata_store L) (to_artifact d)\<rparr>) ds)"

text \<open>\<open>FileSystemArtifactLayer.add\<close>: the loop, then
  \<open>self.metadata_store.save(self.metadata_path)\<close>.\<close>

definition layer_add :: "'m serialization \<Rightarrow> 'm FileSystemArtifactLayer \<Rightarrow> 'm document list
    \<Rightarrow> 'm FileSystemArtifactLayer \<times> py_error option" where
  "layer_add cod L ds =
     (case add_loop cod L ds of
        (L', Some e) \<Rightarrow> (L', Some e)
      | (L', None) \<Rightarrow>
          (case save cod (fs L') (metadata_store L') metadata_path of
             (f, r) \<Rightarrow> (L'\<lparr>fs := f\<rparr>, r)))"

text \<open>
  \<open>FileSystemArtifactLayer.get_matching_documents\<close> draws the uuids from the generator
  \<open>select\<close> one at a time and reads the file of each as it comes, so the tests of
  \<open>select_step\<close> and the reads alternate. The model is the generator run to exhaustion.
\<close>

fun get_matching_loop :: "'m serialization \<Rightarrow> file_system \<Rightarrow> selector \<Rightarrow> 'm artifact list
    \<Rightarrow> py_error + 'm document list" where
  "get_matching_loop cod f sel [] = Inr []"
| "get_matching_loop cod f sel (a # rest) =
     (case select_step sel a of
        Inl e \<Rightarrow> Inl e
      | Inr yielded \<Rightarrow>
          if yielded then
            (case read_text f (uuid a) of
               Inl e \<Rightarrow> Inl e
             | Inr text \<Rightarrow>
                 (case deserialize_document cod text of
                    Inl e \<Rightarrow> Inl e
                  | Inr d \<Rightarrow>
                      (case get_matching_loop cod f sel rest of
                         Inl e \<Rightarrow> Inl e
                       | Inr r \<Rightarrow> Inr (d # r))))
          else get_matching_loop cod f sel rest)"

definition get_matching_documents :: "'m serialization \<Rightarrow> 'm FileSystemArtifactLayer \<Rightarrow> selector
    \<Rightarrow> py_error + 'm document list" where
  "get_matching_documents cod L sel =
     get_matching_loop cod (fs L) sel (artifacts (metadata_store L))"

text \<open>Reading and deserializing the payload files of a list of hashes, in order, up to
  the first failure: what \<open>get_matching_documents\<close> does with the hashes that \<open>select\<close>
  yields.\<close>

fun read_documents :: "'m serialization \<Rightarrow> file_system \<Rightarrow> string list \<Rightarrow> py_error + 'm document list" where
  "read_documents cod f [] = Inr []"
| "read_documents cod f (u # us) =
     (case read_text f u of
        Inl e \<Rightarrow> Inl e
      | Inr text \<Rightarrow>
          (case deserialize_document cod text of
             Inl e \<Rightarrow> Inl e
           | Inr d \<Rightarrow>
               (case read_documents cod f us of
                  Inl e \<Rightarrow> Inl e
                | Inr r \<Rightarrow> Inr (d # r))))"

text \<open>\<open>FileSystemArtifactLayer.exists_by_uuid\<close> and \<open>exists_by_id\<close> hand the question to the
  metadata store.\<close>

definition layer_exists_by_uuid :: "'m FileSystemArtifactLayer \<Rightarrow> string list \<Rightarrow> bool list" where
  "layer_exists_by_uuid L us = exists_by_uuid (metadata_store L) us"

definition layer_exists_by_id :: "'m FileSystemArtifactLayer \<Rightarrow> string list \<Rightarrow> bool list" where
  "layer_exists_by_id L xs = exists_by_id (metadata_store L) xs"

text \<open>
  Modelled from the spec: \<open>ArtifactLayer.exists\<close>, which \<open>CachingInterceptor\<close> calls, is
  declared in \<open>langchain.docstore.base\<close>, not among the sources. The spec makes it the
  order-preserving existence check of logical ids against the index, which in this class
  is \<open>exists_by_id\<close>.
\<close>

definition layer_exists :: "'m FileSystemArtifactLayer \<Rightarrow> string list \<Rightarrow> bool list" where
  "layer_exists L xs = layer_exists_by_id L xs"

text \<open>
  Modelled from the spec: \<open>ArtifactLayer.get_child_documents\<close>, which \<open>CachingInterceptor\<close>
  calls, is declared in \<open>langchain.docstore.base\<close>, not among the sources. The spec makes
  it resolve the stored children of a hash: the artifacts whose parent hashes include
  it, read back through \<open>get_matching_documents\<close>.
\<close>

definition get_child_documents :: "'m serialization \<Rightarrow> 'm FileSystemArtifactLayer \<Rightarrow> string
    \<Rightarrow> py_error + 'm document list" where
  "get_child_documents cod L h =
     get_matching_documents cod L \<lparr>ids = None, hashes = None, parent_hashes = Some {h}\<rparr>"

subsection \<open>\<open>CachingInterceptor\<close>\<close>

text \<open>
  The wrapped transformer is opaque and may keep state of its own (a counter of its
  invocations, say), so it is a function from its state and its input to its result and
  its next state. Keyword arguments are passed through untouched and are part of the
  transformer here.
\<close>

type_synonym ('m, 's) transformer =
  "'s \<Rightarrow> 'm document list \<Rightarrow> (py_error + 'm document list) \<times> 's"

text \<open>
  The \<open>for\<close> loop of \<open>CachingInterceptor.transform_documents\<close> over
  \<open>zip(documents, existence)\<close>, with \<open>new_docs\<close> as accumulator. The result carries the
  layer and the transformer's state as the call leaves them, also when it raises.
\<close>

fun transform_loop :: "('m, 's) transformer \<Rightarrow> 'm serialization \<Rightarrow> 'm FileSystemArtifactLayer \<Rightarrow> 's
    \<Rightarrow> ('m document \<times> bool) list \<Rightarrow> 'm document list
    \<Rightarrow> (py_error + 'm document list) \<times> 'm FileSystemArtifactLayer \<times> 's" where
  "transform_loop T cod L ts [] new_docs = (Inr new_docs, L, ts)"
| "transform_loop T cod L ts ((d, exists) # rest) new_docs =
     (if \<not> exists then
        (case T ts [d] of
           (Inl e, ts') \<Rightarrow> (Inl e, L, ts')
         | (Inr transformed_docs, ts') \<Rightarrow>
             (case layer_add cod L transformed_docs of
                (L', Some e) \<Rightarrow> (Inl e, L', ts')
              | (L', None) \<Rightarrow>
                  transform_loop T cod L' ts' rest (new_docs @ transformed_docs)))
      else
        (case get_child_documents cod L (doc_hash d) of
           Inl e \<Rightarrow> (Inl e, L, ts)
         | Inr children \<Rightarrow> transform_loop T cod L ts rest (new_docs @ children)))"

text \<open>\<open>CachingInterceptor.transform_documents\<close>: the existence of all ids is asked once,
  before the loop.\<close>

definition transform_documents :: "('m, 's) transformer \<Rightarrow> 'm serialization \<Rightarrow> 'm FileSystemArtifactLayer
    \<Rightarrow> 's \<Rightarrow> 'm document list
    \<Rightarrow> (py_error + 'm document list) \<times> 'm FileSystemArtifactLayer \<times> 's" where
  "transform_documents T cod L ts documents =
     transform_loop T cod L ts (zip documents (layer_exists L (map doc_id documents))) []"

subsection \<open>Scenarios and invariants of the layer\<close>


definition add_twice :: "'m serialization \<Rightarrow> 'm FileSystemArtifactLayer \<Rightarrow> 'm document list
    \<Rightarrow> 'm FileSystemArtifactLayer \<times> py_error option" where
  "add_twice cod L ds = layer_add cod (fst (layer_add cod L ds)) ds"



text \<open>The payload files after the writes of \<open>add\<close> for a list of documents, all of
  which go through.\<close>

definition write_all :: "'m serialization \<Rightarrow> file_system \<Rightarrow> 'm document list \<Rightarrow> (string \<rightharpoonup> string)" where
  "write_all cod f ds =
     foldl (\<lambda>m d. m(resolve f (doc_hash d) \<mapsto> serialize_document cod d)) (files f) ds"


subsection \<open>Example documents, layers and collaborators\<close>

text \<open>A directory without subdirectories: a name denotes the file called by what
  follows its leading \<open>./\<close>, if it has one. The directory is empty and every file can be
  written.\<close>

definition strip_dot :: "string \<Rightarrow> string" where
  "strip_dot path =
     (case path of
        a # b # rest \<Rightarrow> if a = CHR ''.'' \<and> b = CHR ''/'' then rest else path
      | _ \<Rightarrow> path)"

definition empty_root :: file_system where
  "empty_root = \<lparr>files = Map.empty, resolve = strip_dot, unwritable = {}, torn = Map.empty\<rparr>"

definition fresh_layer :: "unit FileSystemArtifactLayer" where
  "fresh_layer = \<lparr>fs = empty_root, metadata_store = InMemoryStore_init []\<rparr>"


text \<open>
  An input document \<open>D\<close> and possible outputs of a transformer for it. \<open>E\<close> keeps \<open>D\<close>'s
  logical id and names \<open>D\<close>'s hash as parent; \<open>F\<close> names the parent but has an id of its
  own; \<open>G\<close> keeps the id but names no parent. \<open>E2\<close> has the hash of \<open>E\<close> and another
  content.
\<close>

definition doc_D :: "unit document" where
  "doc_D = \<lparr>page_content = ''text'', doc_id = ''d'', doc_hash = ''hD'',
            doc_parent_hashes = [], doc_metadata = ()\<rparr>"

definition doc_E :: "unit document" where
  "doc_E = \<lparr>page_content = ''chunk'', doc_id = ''d'', doc_hash = ''hE'',
            doc_parent_hashes = [''hD''], doc_metadata = ()\<rparr>"

definition doc_F :: "unit document" where
  "doc_F = \<lparr>page_content = ''part'', doc_id = ''d-0'', doc_hash = ''hF'',
            doc_parent_hashes = [''hD''], doc_metadata = ()\<rparr>"

definition doc_G :: "unit document" where
  "doc_G = \<lparr>page_content = ''whole'', doc_id = ''d'', doc_hash = ''hG'',
            doc_parent_hashes = [], doc_metadata = ()\<rparr>"

definition doc_E2 :: "unit document" where
  "doc_E2 = \<lparr>page_content = ''other'', doc_id = ''d'', doc_hash = ''hE'',
             doc_parent_hashes = [''hD''], doc_metadata = ()\<rparr>"

text \<open>A serialization for the example documents: the payload is the page content, and
  reading it back is a table lookup. \<open>table_codec\<close> has a \<open>json.dump\<close> that writes the hashes;
  \<open>attr_codec\<close> is the same with a \<open>json\<close> module that has no \<open>dump\<close>.\<close>

definition table_deserialize :: "string \<Rightarrow> py_error + unit document" where
  "table_deserialize text =
     (if text = ''chunk'' then Inr doc_E
      else if text = ''part'' then Inr doc_F
      else if text = ''text'' then Inr doc_D
      else if text = ''whole'' then Inr doc_G
      else if text = ''other'' then Inr doc_E2
      else Inl (ExternalError ''unknown payload''))"

definition dump_uuids :: "unit artifact list \<Rightarrow> (py_error \<times> string) + string" where
  "dump_uuids xs = Inr (concat (map uuid xs))"

definition no_dump :: "unit artifact list \<Rightarrow> (py_error \<times> string) + string" where
  "no_dump xs = Inl (AttributeError, [])"

definition table_codec :: "unit serialization" where
  "table_codec =
     \<lparr>serialize_document = page_content,
      deserialize_document = table_deserialize,
      json_dump = dump_uuids\<rparr>"

definition attr_codec :: "unit serialization" where
  "attr_codec =
     \<lparr>serialize_document = page_content,
      deserialize_document = table_deserialize,
      json_dump = no_dump\<rparr>"

text \<open>A transformer instrumented to count its invocations: it answers every call with
  the same documents, and its state is the number of calls so far.\<close>

definition emit :: "'m document list \<Rightarrow> ('m, nat) transformer" where
  "emit out n ds = (Inr out, Suc n)"

text \<open>The fresh layer after \<open>add([E])\<close>.\<close>

definition cached_layer :: "unit FileSystemArtifactLayer" where
  "cached_layer = fst (layer_add table_codec fresh_layer [doc_E])"

subsection \<open>Example artifacts\<close>

text \<open>The two artifacts of the spec's selector example: \<open>A\<close> with logical id \<open>x\<close>, and
  \<open>B\<close> derived from \<open>A\<close>.\<close>

definition artifact_A :: "unit artifact" where
  "artifact_A = \<lparr>custom_id = ''x'', uuid = ''hA'', parent_uuids = [], metadata = ()\<rparr>"

definition artifact_B :: "unit artifact" where
  "artifact_B = \<lparr>custom_id = ''y'', uuid = ''hB'', parent_uuids = [''hA''], metadata = ()\<rparr>"

text \<open>A second version of \<open>A\<close>: the same logical id and the same hash, another parent.\<close>

definition artifact_A2 :: "unit artifact" where
  "artifact_A2 = \<lparr>custom_id = ''x'', uuid = ''hA'', parent_uuids = [''h0''], metadata = ()\<rparr>"

text \<open>A layer whose index holds \<open>A\<close>.\<close>

definition layer_with_A :: "unit FileSystemArtifactLayer" where
  "layer_with_A = \<lparr>fs = empty_root, metadata_store = store_after [artifact_A] []\<rparr>"

subsection \<open>What \<open>select\<close> tests, as one predicate\<close>

text \<open>The disjunction of the three tests of \<open>select_step\<close>, for the selectors on which
  it cannot raise.\<close>

definition matches :: "selector \<Rightarrow> 'm artifact \<Rightarrow> bool" where
  "matches sel a \<longleftrightarrow>
     member_of (uuid a) (ids sel) \<or> member_of (uuid a) (hashes sel)
     \<or> (\<exists>p \<in> set (parent_uuids a). member_of p (parent_hashes sel))"

section \<open>Properties of the metadata store\<close>

lemma index_by_snoc: "index_by key (xs @ [a]) = (index_by key xs)(key a \<mapsto> a)"
  by (simp add: index_by_def)

lemma index_by_defined: "index_by key xs k \<noteq> None \<longleftrightarrow> k \<in> key ` set xs"
proof (induction xs rule: rev_induct)
  case Nil
  show ?case by (simp add: index_by_def)
next
  case (snoc a xs)
  then show ?case by (auto simp: index_by_snoc)
qed

lemma store_after_snoc: "store_after data (added @ [a]) = store_add (store_after data added) a"
  by (simp add: store_after_def)

lemma artifacts_store_after: "artifacts (store_after data added) = data @ added"
  by (induction added rule: rev_induct)
     (simp_all add: store_after_snoc store_add_def, simp add: store_after_def InMemoryStore_init_def)

lemma artifact_ids_store_after:
  "artifact_ids (store_after data added) = index_by custom_id (data @ added)"
proof (induction added rule: rev_induct)
  case Nil
  show ?case by (simp add: store_after_def InMemoryStore_init_def)
next
  case (snoc a added)
  have "index_by custom_id (data @ added @ [a]) = (index_by custom_id (data @ added))(custom_id a \<mapsto> a)"
    using index_by_snoc [of custom_id "data @ added" a] by simp
  with snoc show ?case by (simp add: store_after_snoc store_add_def)
qed

lemma artifact_uuid_store_after:
  "artifact_uuid (store_after data added) = index_by uuid (data @ added)"
proof (induction added rule: rev_induct)
  case Nil
  show ?case by (simp add: store_after_def InMemoryStore_init_def)
next
  case (snoc a added)
  have "index_by uuid (data @ added @ [a]) = (index_by uuid (data @ added))(uuid a \<mapsto> a)"
    using index_by_snoc [of uuid "data @ added" a] by simp
  with snoc show ?case by (simp add: store_after_snoc store_add_def)
qed

text \<open>
  C9. \<open>exists_by_id\<close> answers with one boolean per requested id, in the order of the
  request; the \<open>i\<close>-th answer says whether some stored artifact has that \<open>custom_id\<close>.
  The answer depends only on which artifacts are stored, not on their order in the list.
\<close>

theorem exists_by_id_order_preserving:
  "length (exists_by_id (store_after data added) xs) = length xs
   \<and> (\<forall>i < length xs.
        exists_by_id (store_after data added) xs ! i
          \<longleftrightarrow> (\<exists>a \<in> set (artifacts (store_after data added)). custom_id a = xs ! i))
   \<and> (set (data @ added) = set (data' @ added')
        \<longrightarrow> exists_by_id (store_after data added) xs = exists_by_id (store_after data' added') xs)"
proof (intro conjI allI impI)
  show "length (exists_by_id (store_after data added) xs) = length xs"
    by (simp add: exists_by_id_def)
next
  fix i assume "i < length xs"
  then have "exists_by_id (store_after data added) xs ! i
          \<longleftrightarrow> artifact_ids (store_after data added) (xs ! i) \<noteq> None"
    by (simp add: exists_by_id_def)
  also have "\<dots> \<longleftrightarrow> xs ! i \<in> custom_id ` set (data @ added)"
    by (simp only: artifact_ids_store_after index_by_defined)
  also have "\<dots> \<longleftrightarrow> (\<exists>a \<in> set (artifacts (store_after data added)). custom_id a = xs ! i)"
    by (simp add: artifacts_store_after image_iff) metis
  finally show "exists_by_id (store_after data added) xs ! i
          \<longleftrightarrow> (\<exists>a \<in> set (artifacts (store_after data added)). custom_id a = xs ! i)" .
next
  assume eq: "set (data @ added) = set (data' @ added')"
  have "\<And>x. (artifact_ids (store_after data added) x \<noteq> None)
          = (artifact_ids (store_after data' added') x \<noteq> None)"
    by (simp only: artifact_ids_store_after index_by_defined eq)
  then show "exists_by_id (store_after data added) xs = exists_by_id (store_after data' added') xs"
    unfolding exists_by_id_def by simp
qed

theorem exists_by_id_order_preserving_witness:
  "exists_by_id (store_after [artifact_A] [artifact_B]) [''y'', ''z'', ''x''] = [True, False, True]
   \<and> exists_by_id (store_after [artifact_B] [artifact_A]) [''y'', ''z'', ''x''] = [True, False, True]"
proof -
  have same: "set ([artifact_A] @ [artifact_B]) = set ([artifact_B] @ [artifact_A])"
    by auto
  have eq: "exists_by_id (store_after [artifact_A] [artifact_B]) [''y'', ''z'', ''x'']
      = exists_by_id (store_after [artifact_B] [artifact_A]) [''y'', ''z'', ''x'']"
    using exists_by_id_order_preserving
      [of "[artifact_A]" "[artifact_B]" "[''y'', ''z'', ''x'']" "[artifact_B]" "[artifact_A]"] same
    by blast
  have "exists_by_id (store_after [artifact_A] [artifact_B]) [''y'', ''z'', ''x''] = [True, False, True]"
    by (simp add: exists_by_id_def store_after_def store_add_def InMemoryStore_init_def
        index_by_def artifact_A_def artifact_B_def)
  with eq show ?thesis by simp
qed

text \<open>
  C4. The existence check by hash should say, for each requested hash, whether some
  stored artifact has it as content hash. \<open>exists_by_uuid\<close> looks the hashes up among the
  logical ids instead: with the single artifact \<open>A\<close> (id \<open>x\<close>, hash \<open>hA\<close>) stored, the hash
  \<open>hA\<close> is reported absent and the string \<open>x\<close>, which is no artifact's hash, present, by
  the store and by the layer that asks it.
\<close>

theorem exists_by_uuid_consults_custom_ids:
  "exists_by_uuid (store_after [artifact_A] []) [''hA'', ''x''] = [False, True]
   \<and> layer_exists_by_uuid layer_with_A [''hA'', ''x''] = [False, True]"
  by (simp add: layer_exists_by_uuid_def layer_with_A_def exists_by_uuid_def store_after_def
      InMemoryStore_init_def index_by_def artifact_A_def)

lemma exists_by_uuid_eq_exists_by_id: "exists_by_uuid s us = exists_by_id s us"
  by (simp add: exists_by_uuid_def exists_by_id_def)

subsection \<open>\<open>select\<close>\<close>

lemma select_loop_append:
  "select_loop sel (xs @ ys) =
     (case select_loop sel xs of
        Inl e \<Rightarrow> Inl e
      | Inr r \<Rightarrow> (case select_loop sel ys of Inl e \<Rightarrow> Inl e | Inr r' \<Rightarrow> Inr (r @ r')))"
  by (induction xs) (auto split: sum.splits)

lemma select_step_matches:
  "parent_hashes sel \<noteq> None \<Longrightarrow> select_step sel a = Inr (matches sel a)"
  by (auto simp: select_step_def matches_def truthy_def member_of_def split: option.splits)

lemma select_loop_filter:
  "parent_hashes sel \<noteq> None \<Longrightarrow> select_loop sel xs = Inr (map uuid (filter (matches sel) xs))"
  by (induction xs) (simp_all add: select_step_matches)

lemma select_loop_error: "select_loop sel xs = Inl e \<Longrightarrow> e = TypeError"
  by (induction xs) (auto simp: select_step_def split: if_splits sum.splits option.splits)

text \<open>
  C2. \<open>select\<close> should return the hashes of the artifacts matched by at least one clause,
  the \<open>ids\<close> clause matching the logical id. The \<open>ids\<close> clause of the code tests the
  artifact's hash: with \<open>A\<close> (id \<open>x\<close>, hash \<open>hA\<close>) and \<open>B\<close> (parent \<open>hA\<close>) stored, the selector
  \<open>{ids: {x}}\<close> yields nothing (and raises \<open>TypeError\<close> at \<open>B\<close> when its \<open>parent_hashes\<close> is
  \<open>None\<close>), and the selector with both clauses yields \<open>B\<close>'s hash only. The \<open>parent_hashes\<close>
  clause alone yields \<open>B\<close>'s hash, as claimed.
\<close>

theorem select_ids_clause_tests_uuid:
  "select (store_after [artifact_A, artifact_B] [])
     \<lparr>ids = Some {''x''}, hashes = None, parent_hashes = Some {}\<rparr> = Inr []
   \<and> select (store_after [artifact_A, artifact_B] [])
     \<lparr>ids = Some {''x''}, hashes = None, parent_hashes = None\<rparr> = Inl TypeError
   \<and> select (store_after [artifact_A, artifact_B] [])
     \<lparr>ids = None, hashes = None, parent_hashes = Some {''hA''}\<rparr> = Inr [''hB'']
   \<and> select (store_after [artifact_A, artifact_B] [])
     \<lparr>ids = Some {''x''}, hashes = None, parent_hashes = Some {''hA''}\<rparr> = Inr [''hB'']"
  by (simp add: select_def store_after_def InMemoryStore_init_def select_step_def truthy_def
      member_of_def artifact_A_def artifact_B_def)

subsection \<open>\<open>remove\<close>\<close>

lemma remove_always_raises: "remove s sel = Inl NotImplementedError \<or> remove s sel = Inl TypeError"
  using select_loop_error [of sel "artifacts s"]
  by (auto simp: remove_def select_def remove_by_uuids_def split: sum.splits)

text \<open>
  C7. \<open>remove\<close> should delete the records matched by the selector and return their
  number. The code selects the hashes and then raises \<open>NotImplementedError\<close>: with \<open>A\<close> and
  \<open>B\<close> stored, removing by the selector \<open>{hashes: {hA}}\<close> raises and deletes nothing.
\<close>

theorem remove_not_implemented:
  "remove (store_after [artifact_A, artifact_B] [])
     \<lparr>ids = None, hashes = Some {''hA''}, parent_hashes = Some {}\<rparr> = Inl NotImplementedError"
  by (simp add: remove_def remove_by_uuids_def select_def store_after_def InMemoryStore_init_def
      select_step_def truthy_def member_of_def artifact_A_def artifact_B_def)

subsection \<open>\<open>InMemoryStore.add\<close>\<close>

text \<open>
  C10. \<open>InMemoryStore.add\<close> has no failing branch. It appends the record to the list,
  keeping every older record, and points both dictionaries at the new record, so
  \<open>get_by_uuids\<close> and \<open>exists_by_id\<close> see the record added last. A selector whose
  \<open>hashes\<close> clause names the new record's hash yields that hash once more than before,
  hence twice when an older record with the same hash was selected already.
\<close>

theorem store_add_last_write_wins:
  "artifacts (store_add s a) = artifacts s @ [a]
   \<and> artifact_uuid (store_add s a) (uuid a) = Some a
   \<and> artifact_ids (store_add s a) (custom_id a) = Some a
   \<and> get_by_uuids (store_add s a) [uuid a] = Inr [a]
   \<and> exists_by_id (store_add s a) [custom_id a] = [True]
   \<and> (select s sel = Inr r \<and> member_of (uuid a) (hashes sel)
        \<longrightarrow> select (store_add s a) sel = Inr (r @ [uuid a]))"
  by (auto simp: store_add_def exists_by_id_def select_def select_loop_append select_step_def
      truthy_def member_of_def split: option.splits)

theorem store_add_last_write_wins_witness:
  "select (store_after [artifact_A] []) \<lparr>ids = None, hashes = Some {''hA''}, parent_hashes = None\<rparr>
     = Inr [''hA'']
   \<and> member_of (uuid artifact_A2) (hashes \<lparr>ids = None, hashes = Some {''hA''}, parent_hashes = None\<rparr>)
   \<and> select (store_add (store_after [artifact_A] []) artifact_A2)
        \<lparr>ids = None, hashes = Some {''hA''}, parent_hashes = None\<rparr> = Inr [''hA'', ''hA'']
   \<and> get_by_uuids (store_add (store_after [artifact_A] []) artifact_A2) [''hA''] = Inr [artifact_A2]
   \<and> artifacts (store_add (store_after [artifact_A] []) artifact_A2) = [artifact_A, artifact_A2]"
proof -
  have sel: "select (store_after [artifact_A] []) \<lparr>ids = None, hashes = Some {''hA''}, parent_hashes = None\<rparr>
     = Inr [''hA'']"
    by (simp add: select_def store_after_def InMemoryStore_init_def select_step_def truthy_def
        member_of_def artifact_A_def)
  have mem: "member_of (uuid artifact_A2) (hashes \<lparr>ids = None, hashes = Some {''hA''}, parent_hashes = None\<rparr>)"
    by (simp add: member_of_def artifact_A2_def)
  have arts: "artifacts (store_after [artifact_A] []) = [artifact_A]"
    by (simp add: store_after_def InMemoryStore_init_def)
  have u: "uuid artifact_A2 = ''hA''"
    by (simp add: artifact_A2_def)
  show ?thesis
    using store_add_last_write_wins [of "store_after [artifact_A] []" artifact_A2
        "\<lparr>ids = None, hashes = Some {''hA''}, parent_hashes = None\<rparr>" "[''hA'']"] sel mem arts u
    by simp
qed

section \<open>Properties of the artifact layer\<close>

subsection \<open>Writing a file\<close>

lemma write_text_env:
  "resolve (fst (write_text f p b)) = resolve f"
  "unwritable (fst (write_text f p b)) = unwritable f"
  "torn (fst (write_text f p b)) = torn f"
  by (auto simp: write_text_def split: sum.splits option.splits prod.splits)

lemma write_text_ok:
  "writes_ok f p \<Longrightarrow> write_text f p (Inr t) = (f\<lparr>files := (files f)(resolve f p \<mapsto> t)\<rparr>, None)"
  by (simp add: write_text_def writes_ok_def)

lemma write_text_fail:
  "\<not> writes_ok f p \<Longrightarrow> snd (write_text f p (Inr t)) = Some OSError"
  by (auto simp: write_text_def writes_ok_def split: option.splits)


lemma write_text_other:
  "q \<noteq> resolve f p \<Longrightarrow> files (fst (write_text f p b)) q = files f q"
  by (auto simp: write_text_def split: sum.splits option.splits prod.splits)

lemma writes_ok_files [simp]: "writes_ok (f\<lparr>files := m\<rparr>) p = writes_ok f p"
  by (simp add: writes_ok_def)

lemma writes_ok_env:
  "resolve f' = resolve f \<Longrightarrow> unwritable f' = unwritable f \<Longrightarrow> torn f' = torn f
     \<Longrightarrow> writes_ok f' p = writes_ok f p"
  by (simp add: writes_ok_def)

lemma snd_write_text_env:
  "resolve f' = resolve f \<Longrightarrow> unwritable f' = unwritable f \<Longrightarrow> torn f' = torn f
     \<Longrightarrow> snd (write_text f' p b) = snd (write_text f p b)"
  by (auto simp: write_text_def split: sum.splits option.splits prod.splits)

subsection \<open>The loop of \<open>add\<close>\<close>

lemma add_loop_Cons_ok:
  "writes_ok (fs L) (doc_hash x) \<Longrightarrow>
     add_loop cod L (x # ds) =
       add_loop cod
         (L\<lparr>fs := (fs L)\<lparr>files := (files (fs L))(resolve (fs L) (doc_hash x) \<mapsto> serialize_document cod x)\<rparr>,
            metadata_store := store_add (metadata_store L) (to_artifact x)\<rparr>) ds"
  by (simp add: write_text_ok)

lemma add_loop_Cons_fail:
  "\<not> writes_ok (fs L) (doc_hash x) \<Longrightarrow>
     add_loop cod L (x # ds) =
       (L\<lparr>fs := fst (write_text (fs L) (doc_hash x) (Inr (serialize_document cod x)))\<rparr>, Some OSError)"
  using write_text_fail [of "fs L" "doc_hash x" "serialize_document cod x"]
  by (cases "write_text (fs L) (doc_hash x) (Inr (serialize_document cod x))") simp

lemma env_add_loop:
  "resolve (fs (fst (add_loop cod L ds))) = resolve (fs L)
   \<and> unwritable (fs (fst (add_loop cod L ds))) = unwritable (fs L)
   \<and> torn (fs (fst (add_loop cod L ds))) = torn (fs L)"
proof (induction ds arbitrary: L)
  case Nil
  show ?case by simp
next
  case (Cons x ds)
  show ?case
  proof (cases "writes_ok (fs L) (doc_hash x)")
    case True
    let ?L = "L\<lparr>fs := (fs L)\<lparr>files := (files (fs L))(resolve (fs L) (doc_hash x) \<mapsto> serialize_document cod x)\<rparr>,
                 metadata_store := store_add (metadata_store L) (to_artifact x)\<rparr>"
    show ?thesis
      unfolding add_loop_Cons_ok [OF True] using Cons.IH [of ?L] by simp
  next
    case False
    show ?thesis
      unfolding add_loop_Cons_fail [OF False] by (simp add: write_text_env)
  qed
qed


lemma artifacts_foldl_store_add: "artifacts (foldl store_add s xs) = artifacts s @ xs"
  by (induction xs arbitrary: s) (simp_all add: store_add_def)

lemma snd_add_loop:
  "snd (add_loop cod L ds) =
     (if \<forall>d \<in> set ds. writes_ok (fs L) (doc_hash d) then None else Some OSError)"
proof (induction ds arbitrary: L)
  case Nil
  show ?case by simp
next
  case (Cons x ds)
  show ?case
  proof (cases "writes_ok (fs L) (doc_hash x)")
    case True
    show ?thesis unfolding add_loop_Cons_ok [OF True] Cons.IH using True by simp
  next
    case False
    show ?thesis unfolding add_loop_Cons_fail [OF False] using False by simp
  qed
qed



subsection \<open>\<open>FileSystemArtifactLayer.add\<close>\<close>

lemma layer_add_raised:
  "snd (add_loop cod L ds) = Some e \<Longrightarrow> layer_add cod L ds = (fst (add_loop cod L ds), Some e)"
  by (cases "add_loop cod L ds") (simp add: layer_add_def)

lemma layer_add_saved:
  "snd (add_loop cod L ds) = None \<Longrightarrow>
     layer_add cod L ds =
       ((fst (add_loop cod L ds))
          \<lparr>fs := fst (save cod (fs (fst (add_loop cod L ds)))
                    (metadata_store (fst (add_loop cod L ds))) metadata_path)\<rparr>,
        snd (save cod (fs (fst (add_loop cod L ds)))
              (metadata_store (fst (add_loop cod L ds))) metadata_path))"
  by (cases "add_loop cod L ds") (simp add: layer_add_def split: prod.splits)

lemma metadata_store_layer_add:
  "metadata_store (fst (layer_add cod L ds)) = metadata_store (fst (add_loop cod L ds))"
  by (cases "snd (add_loop cod L ds)") (simp_all add: layer_add_raised layer_add_saved)


lemma env_layer_add:
  "resolve (fs (fst (layer_add cod L ds))) = resolve (fs L)
   \<and> unwritable (fs (fst (layer_add cod L ds))) = unwritable (fs L)
   \<and> torn (fs (fst (layer_add cod L ds))) = torn (fs L)"
  using env_add_loop [of cod L ds]
  by (cases "snd (add_loop cod L ds)")
     (simp_all add: layer_add_raised layer_add_saved save_def write_text_env)





lemma snd_save_env:
  "resolve f' = resolve f \<Longrightarrow> unwritable f' = unwritable f \<Longrightarrow> torn f' = torn f
     \<Longrightarrow> snd (save cod f' s p) = snd (save cod f s p)"
  unfolding save_def by (rule snd_write_text_env)

lemma snd_save_artifacts:
  "artifacts s' = artifacts s \<Longrightarrow> snd (save cod f s' p) = snd (save cod f s p)"
  by (simp add: save_def)

lemma files_save_other:
  "q \<noteq> resolve f p \<Longrightarrow> files (fst (save cod f s p)) q = files f q"
  unfolding save_def by (rule write_text_other)

lemma files_save_written:
  "writes_ok f p \<Longrightarrow> json_dump cod (artifacts s) = Inr text
     \<Longrightarrow> files (fst (save cod f s p)) (resolve f p) = Some text"
  by (simp add: save_def write_text_def writes_ok_def)

lemma write_all_Cons:
  "write_all cod f (x # ds) =
     write_all cod (f\<lparr>files := (files f)(resolve f (doc_hash x) \<mapsto> serialize_document cod x)\<rparr>) ds"
  by (simp add: write_all_def)

lemma add_loop_all_written:
  "\<forall>d \<in> set ds. writes_ok (fs L) (doc_hash d) \<Longrightarrow>
     add_loop cod L ds =
       (L\<lparr>fs := (fs L)\<lparr>files := write_all cod (fs L) ds\<rparr>,
          metadata_store := foldl store_add (metadata_store L) (map to_artifact ds)\<rparr>, None)"
proof (induction ds arbitrary: L)
  case Nil
  show ?case by (simp add: write_all_def)
next
  case (Cons x ds)
  let ?L = "L\<lparr>fs := (fs L)\<lparr>files := (files (fs L))(resolve (fs L) (doc_hash x) \<mapsto> serialize_document cod x)\<rparr>,
               metadata_store := store_add (metadata_store L) (to_artifact x)\<rparr>"
  from Cons.prems have x: "writes_ok (fs L) (doc_hash x)" by simp
  have "\<forall>d \<in> set ds. writes_ok (fs ?L) (doc_hash d)"
    using Cons.prems by simp
  then have "add_loop cod ?L ds =
       (?L\<lparr>fs := (fs ?L)\<lparr>files := write_all cod (fs ?L) ds\<rparr>,
          metadata_store := foldl store_add (metadata_store ?L) (map to_artifact ds)\<rparr>, None)"
    by (rule Cons.IH)
  then show ?case
    unfolding add_loop_Cons_ok [OF x] by (simp add: write_all_Cons)
qed

text \<open>What \<open>add\<close> leaves when every payload write goes through.\<close>

lemma snd_add_loop_all_written:
  "\<forall>d \<in> set ds. writes_ok (fs L) (doc_hash d) \<Longrightarrow> snd (add_loop cod L ds) = None"
  by (simp add: snd_add_loop)

lemma metadata_store_layer_add_all:
  assumes "\<forall>d \<in> set ds. writes_ok (fs L) (doc_hash d)"
  shows "metadata_store (fst (layer_add cod L ds)) =
     foldl store_add (metadata_store L) (map to_artifact ds)"
  by (simp add: metadata_store_layer_add add_loop_all_written [OF assms])

lemma files_layer_add_all:
  assumes "\<forall>d \<in> set ds. writes_ok (fs L) (doc_hash d)"
    and "p \<noteq> resolve (fs L) metadata_path"
  shows "files (fs (fst (layer_add cod L ds))) p = write_all cod (fs L) ds p"
  unfolding layer_add_saved [OF snd_add_loop_all_written [OF assms(1)]]
    add_loop_all_written [OF assms(1)]
  using assms(2) by (simp add: files_save_other)

lemma snd_layer_add_all:
  assumes "\<forall>d \<in> set ds. writes_ok (fs L) (doc_hash d)"
  shows "snd (layer_add cod L ds) =
     snd (save cod (fs L) (foldl store_add (metadata_store L) (map to_artifact ds)) metadata_path)"
proof -
  have "snd (save cod ((fs L)\<lparr>files := write_all cod (fs L) ds\<rparr>)
              (foldl store_add (metadata_store L) (map to_artifact ds)) metadata_path)
      = snd (save cod (fs L) (foldl store_add (metadata_store L) (map to_artifact ds)) metadata_path)"
    by (rule snd_save_env) simp_all
  then show ?thesis
    unfolding layer_add_saved [OF snd_add_loop_all_written [OF assms]]
      add_loop_all_written [OF assms]
    by simp
qed

lemma snapshot_layer_add_all:
  assumes "\<forall>d \<in> set ds. writes_ok (fs L) (doc_hash d)"
    and "writes_ok (fs L) metadata_path"
    and "json_dump cod (artifacts (metadata_store L) @ map to_artifact ds) = Inr text"
  shows "files (fs (fst (layer_add cod L ds))) (resolve (fs L) metadata_path) = Some text"
proof -
  let ?F = "(fs L)\<lparr>files := write_all cod (fs L) ds\<rparr>"
  let ?S = "foldl store_add (metadata_store L) (map to_artifact ds)"
  have "writes_ok ?F metadata_path"
    using assms(2) by simp
  moreover have "json_dump cod (artifacts ?S) = Inr text"
    using assms(3) by (simp add: artifacts_foldl_store_add)
  ultimately have "files (fst (save cod ?F ?S metadata_path)) (resolve ?F metadata_path) = Some text"
    by (rule files_save_written)
  then show ?thesis
    unfolding layer_add_saved [OF snd_add_loop_all_written [OF assms(1)]]
      add_loop_all_written [OF assms(1)]
    by simp
qed

lemma writes_ok_layer_add:
  "writes_ok (fs (fst (layer_add cod L ds))) p = writes_ok (fs L) p"
  by (simp add: writes_ok_def env_layer_add)

subsection \<open>\<open>add\<close> twice\<close>

text \<open>
  C5, amended. Let the payload file of \<open>D\<close> be writable. Then each of two calls of
  \<open>add([D])\<close> appends a record of \<open>D\<close>, so the index holds the record twice after the
  second call. The second call leaves both dictionaries, the answers of the existence
  check and every file other than the metadata file as the first call left them. Each
  call raises exactly what saving the index raises at that point, and nothing else; when
  the second save goes through, the metadata file holds the snapshot with the duplicate.
\<close>

theorem add_twice_appends_duplicate:
  assumes ok: "writes_ok (fs L) (doc_hash D)"
  shows "artifacts (metadata_store (fst (layer_add cod L [D])))
       = artifacts (metadata_store L) @ [to_artifact D]
   \<and> artifacts (metadata_store (fst (add_twice cod L [D])))
       = artifacts (metadata_store L) @ [to_artifact D, to_artifact D]
   \<and> artifact_uuid (metadata_store (fst (add_twice cod L [D])))
       = artifact_uuid (metadata_store (fst (layer_add cod L [D])))
   \<and> artifact_ids (metadata_store (fst (add_twice cod L [D])))
       = artifact_ids (metadata_store (fst (layer_add cod L [D])))
   \<and> layer_exists (fst (add_twice cod L [D])) xs = layer_exists (fst (layer_add cod L [D])) xs
   \<and> (\<forall>p. p \<noteq> resolve (fs L) metadata_path \<longrightarrow>
         files (fs (fst (add_twice cod L [D]))) p = files (fs (fst (layer_add cod L [D]))) p)
   \<and> snd (layer_add cod L [D])
       = snd (save cod (fs L) (store_add (metadata_store L) (to_artifact D)) metadata_path)
   \<and> snd (add_twice cod L [D])
       = snd (save cod (fs L)
               (store_add (store_add (metadata_store L) (to_artifact D)) (to_artifact D)) metadata_path)
   \<and> (\<forall>text. writes_ok (fs L) metadata_path
         \<and> json_dump cod (artifacts (metadata_store L) @ [to_artifact D, to_artifact D]) = Inr text
         \<longrightarrow> files (fs (fst (add_twice cod L [D]))) (resolve (fs L) metadata_path) = Some text)"
proof -
  let ?a = "to_artifact D"
  let ?L1 = "fst (layer_add cod L [D])"
  let ?L2 = "fst (layer_add cod ?L1 [D])"
  have all: "\<forall>d \<in> set [D]. writes_ok (fs L) (doc_hash d)"
    using ok by simp
  have all1: "\<forall>d \<in> set [D]. writes_ok (fs ?L1) (doc_hash d)"
    using ok by (simp add: writes_ok_layer_add)
  have res1: "resolve (fs ?L1) = resolve (fs L)"
    by (simp add: env_layer_add)
  have env1: "resolve (fs ?L1) = resolve (fs L)" "unwritable (fs ?L1) = unwritable (fs L)"
    "torn (fs ?L1) = torn (fs L)"
    by (simp_all add: env_layer_add)
  have s1: "metadata_store ?L1 = store_add (metadata_store L) ?a"
    using metadata_store_layer_add_all [OF all, of cod] by simp
  have s2: "metadata_store ?L2 = store_add (store_add (metadata_store L) ?a) ?a"
    using metadata_store_layer_add_all [OF all1, of cod] by (simp add: s1)
  have f1: "files (fs ?L1) p = ((files (fs L))(resolve (fs L) (doc_hash D) \<mapsto> serialize_document cod D)) p"
    if "p \<noteq> resolve (fs L) metadata_path" for p
    using files_layer_add_all [OF all, of p cod] that by (simp add: write_all_def)
  have f2: "files (fs ?L2) p = ((files (fs ?L1))(resolve (fs L) (doc_hash D) \<mapsto> serialize_document cod D)) p"
    if "p \<noteq> resolve (fs L) metadata_path" for p
    using files_layer_add_all [OF all1, of p cod] that by (simp add: write_all_def res1)
  have files: "files (fs ?L2) p = files (fs ?L1) p" if "p \<noteq> resolve (fs L) metadata_path" for p
    using f1 [OF that] f2 [OF that] by simp
  have e1: "snd (layer_add cod L [D]) = snd (save cod (fs L) (store_add (metadata_store L) ?a) metadata_path)"
    using snd_layer_add_all [OF all, of cod] by simp
  have "snd (layer_add cod ?L1 [D])
      = snd (save cod (fs ?L1) (store_add (metadata_store ?L1) ?a) metadata_path)"
    using snd_layer_add_all [OF all1, of cod] by simp
  also have "\<dots> = snd (save cod (fs L) (store_add (metadata_store ?L1) ?a) metadata_path)"
    by (rule snd_save_env) (rule env1)+
  finally have e2: "snd (layer_add cod ?L1 [D])
      = snd (save cod (fs L) (store_add (store_add (metadata_store L) ?a) ?a) metadata_path)"
    by (simp only: s1)
  have snap: "files (fs ?L2) (resolve (fs L) metadata_path) = Some t"
    if "writes_ok (fs L) metadata_path
         \<and> json_dump cod (artifacts (metadata_store L) @ [?a, ?a]) = Inr t" for t
  proof -
    have "writes_ok (fs ?L1) metadata_path"
      using that by (simp add: writes_ok_layer_add)
    moreover have "json_dump cod (artifacts (metadata_store ?L1) @ map to_artifact [D]) = Inr t"
      using that by (simp add: s1 store_add_def)
    ultimately have "files (fs ?L2) (resolve (fs ?L1) metadata_path) = Some t"
      by (rule snapshot_layer_add_all [OF all1])
    then show ?thesis by (simp only: res1)
  qed
  show ?thesis
    unfolding add_twice_def
    using files snap
    by (simp add: s1 s2 e1 e2 store_add_def layer_exists_def layer_exists_by_id_def exists_by_id_def)
qed

text \<open>
  C5, as claimed: a second \<open>add([D])\<close> either leaves no duplicate record and raises nothing,
  or raises a \<open>DuplicateError\<close>. It does neither. On a fresh layer whose snapshot can be
  saved, the second call raises nothing and the index then holds the record of \<open>D\<close>
  twice, while it holds it once after one call. With a \<open>json\<close> module that has no \<open>dump\<close>,
  both calls raise \<open>AttributeError\<close> from \<open>save\<close>, after the record has been appended, and
  the index holds the record twice as well.
\<close>

theorem add_twice_duplicates_record:
  "snd (add_twice table_codec fresh_layer [doc_D]) = None
   \<and> artifacts (metadata_store (fst (layer_add table_codec fresh_layer [doc_D]))) = [to_artifact doc_D]
   \<and> artifacts (metadata_store (fst (add_twice table_codec fresh_layer [doc_D])))
       = [to_artifact doc_D, to_artifact doc_D]
   \<and> snd (layer_add attr_codec fresh_layer [doc_D]) = Some AttributeError
   \<and> snd (add_twice attr_codec fresh_layer [doc_D]) = Some AttributeError
   \<and> artifacts (metadata_store (fst (add_twice attr_codec fresh_layer [doc_D])))
       = [to_artifact doc_D, to_artifact doc_D]"
  by (simp add: add_twice_def layer_add_def save_def write_text_def store_add_def fresh_layer_def
      empty_root_def strip_dot_def InMemoryStore_init_def doc_D_def metadata_path_def
      table_codec_def attr_codec_def dump_uuids_def no_dump_def)


theorem add_twice_appends_duplicate_witness:
  "writes_ok (fs fresh_layer) (doc_hash doc_D)
   \<and> artifacts (metadata_store (fst (add_twice table_codec fresh_layer [doc_D])))
       = [to_artifact doc_D, to_artifact doc_D]
   \<and> layer_exists (fst (add_twice table_codec fresh_layer [doc_D])) [''d'', ''e''] = [True, False]
   \<and> snd (add_twice table_codec fresh_layer [doc_D]) = None
   \<and> files (fs (fst (add_twice table_codec fresh_layer [doc_D]))) ''metadata.json'' = Some ''hDhD''
   \<and> artifacts (metadata_store (fst (add_twice attr_codec fresh_layer [doc_D])))
       = [to_artifact doc_D, to_artifact doc_D]
   \<and> snd (add_twice attr_codec fresh_layer [doc_D]) = Some AttributeError"
proof -
  have ok: "writes_ok (fs fresh_layer) (doc_hash doc_D)"
    by (simp add: writes_ok_def fresh_layer_def empty_root_def)
  have init: "artifacts (metadata_store fresh_layer) = []"
    by (simp add: fresh_layer_def InMemoryStore_init_def)
  have okm: "writes_ok (fs fresh_layer) metadata_path"
    by (simp add: writes_ok_def fresh_layer_def empty_root_def)
  have dump: "json_dump table_codec
      (artifacts (metadata_store fresh_layer) @ [to_artifact doc_D, to_artifact doc_D]) = Inr ''hDhD''"
    by (simp add: init table_codec_def dump_uuids_def to_artifact_def doc_D_def)
  have mp: "resolve (fs fresh_layer) metadata_path = ''metadata.json''"
    by (simp add: fresh_layer_def empty_root_def strip_dot_def metadata_path_def)
  have once: "layer_exists (fst (layer_add table_codec fresh_layer [doc_D])) [''d'', ''e''] = [True, False]"
    by (simp add: layer_add_def save_def write_text_def layer_exists_def layer_exists_by_id_def
        exists_by_id_def store_add_def to_artifact_def fresh_layer_def empty_root_def strip_dot_def
        InMemoryStore_init_def index_by_def doc_D_def metadata_path_def table_codec_def dump_uuids_def)
  have err: "snd (save table_codec (fs fresh_layer)
               (store_add (store_add (metadata_store fresh_layer) (to_artifact doc_D))
                 (to_artifact doc_D)) metadata_path) = None"
    by (simp add: save_def write_text_def fresh_layer_def empty_root_def strip_dot_def
        metadata_path_def table_codec_def dump_uuids_def)
  have err': "snd (save attr_codec (fs fresh_layer)
               (store_add (store_add (metadata_store fresh_layer) (to_artifact doc_D))
                 (to_artifact doc_D)) metadata_path) = Some AttributeError"
    by (simp add: save_def write_text_def fresh_layer_def empty_root_def strip_dot_def
        metadata_path_def attr_codec_def no_dump_def)
  note main = add_twice_appends_duplicate [OF ok, of table_codec "[''d'', ''e'']"]
  note main' = add_twice_appends_duplicate [OF ok, of attr_codec "[]"]
  from main init have a: "artifacts (metadata_store (fst (add_twice table_codec fresh_layer [doc_D])))
       = [to_artifact doc_D, to_artifact doc_D]"
    by simp
  from main once have b: "layer_exists (fst (add_twice table_codec fresh_layer [doc_D])) [''d'', ''e'']
       = [True, False]"
    by simp
  from main err have c: "snd (add_twice table_codec fresh_layer [doc_D]) = None"
    by simp
  from main okm dump have "files (fs (fst (add_twice table_codec fresh_layer [doc_D])))
      (resolve (fs fresh_layer) metadata_path) = Some ''hDhD''"
    by blast
  then have d: "files (fs (fst (add_twice table_codec fresh_layer [doc_D]))) ''metadata.json'' = Some ''hDhD''"
    by (simp only: mp)
  from main' init have a': "artifacts (metadata_store (fst (add_twice attr_codec fresh_layer [doc_D])))
       = [to_artifact doc_D, to_artifact doc_D]"
    by simp
  from main' err' have c': "snd (add_twice attr_codec fresh_layer [doc_D]) = Some AttributeError"
    by simp
  from ok a b c d a' c' show ?thesis by simp
qed

subsection \<open>Two payloads under one hash\<close>




section \<open>Properties of the caching interceptor\<close>

subsection \<open>Stored children\<close>

lemma get_matching_loop_read:
  "parent_hashes sel \<noteq> None \<Longrightarrow>
     get_matching_loop cod f sel xs = read_documents cod f (map uuid (filter (matches sel) xs))"
  by (induction xs) (auto simp: select_step_matches split: sum.splits)

lemma matches_parent_only:
  "matches \<lparr>ids = None, hashes = None, parent_hashes = Some {h}\<rparr> = (\<lambda>a. h \<in> set (parent_uuids a))"
  by (rule ext) (auto simp: matches_def member_of_def)

lemma get_child_documents_read:
  "get_child_documents cod L h =
     read_documents cod (fs L)
       (map uuid (filter (\<lambda>a. h \<in> set (parent_uuids a)) (artifacts (metadata_store L))))"
  by (simp add: get_child_documents_def get_matching_documents_def get_matching_loop_read
      matches_parent_only)

lemma transform_loop_append:
  "transform_loop T cod L ts (xs @ ys) acc =
     (case transform_loop T cod L ts xs acc of
        (Inl e, L', ts') \<Rightarrow> (Inl e, L', ts')
      | (Inr acc', L', ts') \<Rightarrow> transform_loop T cod L' ts' ys acc')"
proof (induction xs arbitrary: L ts acc)
  case Nil
  show ?case by simp
next
  case (Cons x xs)
  obtain d ex where x: "x = (d, ex)" by (cases x)
  show ?case
    by (simp add: x Cons.IH split: prod.splits sum.splits option.splits)
qed

lemma layer_exists_append: "layer_exists L (xs @ ys) = layer_exists L xs @ layer_exists L ys"
  by (simp add: layer_exists_def layer_exists_by_id_def exists_by_id_def)

lemma length_layer_exists: "length (layer_exists L xs) = length xs"
  by (simp add: layer_exists_def layer_exists_by_id_def exists_by_id_def)

text \<open>
  C3. Let the logical id of the input document \<open>d\<close> exist in the layer when
  \<open>transform_documents\<close> is called, and let the documents before \<open>d\<close> have been processed
  without an exception. Then the step for \<open>d\<close> leaves the transformer's state and the
  layer as they are (the transformer is not invoked) and appends the stored children of
  \<open>d\<close>'s hash to the result, before the loop goes on with the documents after \<open>d\<close>. The
  children are the payloads, read back in index order, of the artifacts whose parents
  include \<open>d\<close>'s hash; a payload that cannot be read or deserialized raises.
\<close>

theorem cached_document_is_not_retransformed:
  assumes known: "layer_exists L [doc_id d] = [True]"
    and before: "transform_documents T cod L ts pre = (Inr acc, L', ts')"
  shows "transform_documents T cod L ts (pre @ d # post) =
           (case get_child_documents cod L' (doc_hash d) of
              Inl e \<Rightarrow> (Inl e, L', ts')
            | Inr children \<Rightarrow>
                transform_loop T cod L' ts' (zip post (layer_exists L (map doc_id post)))
                  (acc @ children))
         \<and> get_child_documents cod L' (doc_hash d) =
             read_documents cod (fs L')
               (map uuid (filter (\<lambda>a. doc_hash d \<in> set (parent_uuids a))
                  (artifacts (metadata_store L'))))"
proof
  have ex: "layer_exists L (map doc_id (pre @ d # post))
      = layer_exists L (map doc_id pre) @ True # layer_exists L (map doc_id post)"
    using known by (simp add: layer_exists_def layer_exists_by_id_def exists_by_id_def)
  have z: "zip (pre @ d # post) (layer_exists L (map doc_id (pre @ d # post)))
      = zip pre (layer_exists L (map doc_id pre)) @ (d, True) # zip post (layer_exists L (map doc_id post))"
    unfolding ex by (simp add: length_layer_exists)
  have pre: "transform_loop T cod L ts (zip pre (layer_exists L (map doc_id pre))) [] = (Inr acc, L', ts')"
    using before by (simp add: transform_documents_def)
  show "transform_documents T cod L ts (pre @ d # post) =
           (case get_child_documents cod L' (doc_hash d) of
              Inl e \<Rightarrow> (Inl e, L', ts')
            | Inr children \<Rightarrow>
                transform_loop T cod L' ts' (zip post (layer_exists L (map doc_id post)))
                  (acc @ children))"
    unfolding transform_documents_def z transform_loop_append pre by simp
  show "get_child_documents cod L' (doc_hash d) =
             read_documents cod (fs L')
               (map uuid (filter (\<lambda>a. doc_hash d \<in> set (parent_uuids a))
                  (artifacts (metadata_store L'))))"
    by (rule get_child_documents_read)
qed

lemma cached_layer_children: "get_child_documents table_codec cached_layer ''hD'' = Inr [doc_E]"
  by (simp add: get_child_documents_read cached_layer_def layer_add_def save_def write_text_def
      read_text_def store_add_def to_artifact_def fresh_layer_def empty_root_def strip_dot_def
      InMemoryStore_init_def metadata_path_def table_codec_def table_deserialize_def dump_uuids_def
      doc_E_def)

theorem cached_document_is_not_retransformed_witness:
  "layer_exists cached_layer [doc_id doc_D] = [True]
   \<and> transform_documents (emit [doc_F]) table_codec cached_layer 0 [] = (Inr [], cached_layer, 0)
   \<and> transform_documents (emit [doc_F]) table_codec cached_layer 0 [doc_D] = (Inr [doc_E], cached_layer, 0)"
proof -
  have known: "layer_exists cached_layer [doc_id doc_D] = [True]"
    by (simp add: layer_exists_def layer_exists_by_id_def exists_by_id_def cached_layer_def
        layer_add_def save_def write_text_def store_add_def to_artifact_def fresh_layer_def
        empty_root_def strip_dot_def metadata_path_def table_codec_def dump_uuids_def
        doc_E_def doc_D_def)
  have before: "transform_documents (emit [doc_F]) table_codec cached_layer 0 [] = (Inr [], cached_layer, 0)"
    by (simp add: transform_documents_def)
  have h: "doc_hash doc_D = ''hD''"
    by (simp add: doc_D_def)
  from cached_document_is_not_retransformed [OF known before, of "[]"] cached_layer_children h
  have "transform_documents (emit [doc_F]) table_codec cached_layer 0 [doc_D] = (Inr [doc_E], cached_layer, 0)"
    by simp
  with known before show ?thesis by simp
qed

subsection \<open>The same document twice\<close>









end
